theory Spec2Isabelle
  imports Main "HOL-Library.Word"
begin

section \<open>The bounded queue of thqueue.hpp\<close>

text \<open>
  The class template \<^verbatim>\<open>thqueue<T, Container>\<close> guards two fields with one mutex:
  \<^verbatim>\<open>m_capacity\<close> of type \<^verbatim>\<open>size_type\<close> and \<^verbatim>\<open>m_queue\<close>, a \<^verbatim>\<open>std::queue\<close>.
  Every member function holds the mutex for the whole of its critical section, so each
  call is one atomic transition of the pair of fields. \<^verbatim>\<open>size_type\<close> is the unsigned
  64-bit \<^verbatim>\<open>size_t\<close>; the container is a list with \<^verbatim>\<open>front()\<close> at the head and
  \<^verbatim>\<open>emplace\<close> at the tail.
\<close>

type_synonym size_type = "64 word"

record 'a thqueue =
  m_capacity :: size_type
  m_queue :: "'a list"

text \<open>The two condition variables; an operation reports the \<^verbatim>\<open>notify_one\<close> calls it makes.\<close>

datatype cond = NotEmptyCond | NotFullCond

definition MAX_CAPACITY :: size_type where
  "MAX_CAPACITY = - 1"

subsection \<open>Constructors\<close>

definition thqueue_default :: "'a thqueue" where
  "thqueue_default = \<lparr>m_capacity = MAX_CAPACITY, m_queue = []\<rparr>"

definition thqueue_cap :: "size_type \<Rightarrow> 'a thqueue" where
  "thqueue_cap cap = \<lparr>m_capacity = max cap 1, m_queue = []\<rparr>"

subsection \<open>Observers\<close>

definition empty_thq :: "'a thqueue \<Rightarrow> bool" where
  "empty_thq s = (m_queue s = [])"

definition capacity :: "'a thqueue \<Rightarrow> size_type" where
  "capacity s = m_capacity s"

text \<open>\<^verbatim>\<open>m_queue.size()\<close> is a \<^verbatim>\<open>size_type\<close>: the element count as a 64-bit value.\<close>

definition size_thq :: "'a thqueue \<Rightarrow> size_type" where
  "size_thq s = of_nat (length (m_queue s))"

subsection \<open>The capacity setter\<close>

text \<open>\<^verbatim>\<open>capacity(size_type cap)\<close>: the notifications made and the state afterwards.\<close>

definition capacity_set :: "size_type \<Rightarrow> 'a thqueue \<Rightarrow> cond list \<times> 'a thqueue" where
  "capacity_set cap s = ([], s\<lparr>m_capacity := cap\<rparr>)"

subsection \<open>Insertion\<close>

text \<open>
  \<^verbatim>\<open>put\<close> waits on \<^verbatim>\<open>m_notFullCond\<close> with the predicate \<^verbatim>\<open>size() < m_capacity\<close> when
  \<^verbatim>\<open>size() >= m_capacity\<close>. The wait releases the mutex, and the rest of the body runs
  under the mutex once the predicate holds. \<open>None\<close> is the caller suspended in the
  wait; \<open>Some\<close> is the body run to its end in a state where the predicate holds.
\<close>

definition put :: "'a \<Rightarrow> 'a thqueue \<Rightarrow> (cond list \<times> 'a thqueue) option" where
  "put val s =
     (if size_thq s \<ge> m_capacity s then None
      else let wasEmpty = (m_queue s = []);
               s' = s\<lparr>m_queue := m_queue s @ [val]\<rparr>
           in Some (if wasEmpty then [NotEmptyCond] else [], s'))"

definition try_put :: "'a \<Rightarrow> 'a thqueue \<Rightarrow> bool \<times> cond list \<times> 'a thqueue" where
  "try_put val s =
     (let n = size_thq s
      in if n \<ge> m_capacity s then (False, [], s)
         else let s' = s\<lparr>m_queue := m_queue s @ [val]\<rparr>
              in (True, if n = 0 then [NotEmptyCond] else [], s'))"

subsection \<open>Removal\<close>

text \<open>
  The test after \<^verbatim>\<open>pop()\<close> compares the new size with \<^verbatim>\<open>m_capacity-1\<close>, an unsigned
  subtraction that wraps to \<^verbatim>\<open>MAX_CAPACITY\<close> when the capacity is 0.
\<close>

definition notify_after_pop :: "'a thqueue \<Rightarrow> cond list" where
  "notify_after_pop s = (if size_thq s = m_capacity s - 1 then [NotFullCond] else [])"

text \<open>
  \<^verbatim>\<open>get(value_type* val)\<close>: the first argument is the content of the caller's object
  \<^verbatim>\<open>*val\<close> before the call, the first component of the result its content afterwards.
  \<open>None\<close> is the caller suspended on \<^verbatim>\<open>m_notEmptyCond\<close>.
\<close>

definition get_ptr :: "'a \<Rightarrow> 'a thqueue \<Rightarrow> ('a \<times> cond list \<times> 'a thqueue) option" where
  "get_ptr slot s =
     (case m_queue s of
        [] \<Rightarrow> None
      | x # xs \<Rightarrow> let s' = s\<lparr>m_queue := xs\<rparr> in Some (x, notify_after_pop s', s'))"

text \<open>\<^verbatim>\<open>get()\<close>: the first component of the result is the value returned.\<close>

definition get :: "'a thqueue \<Rightarrow> ('a \<times> cond list \<times> 'a thqueue) option" where
  "get s =
     (case m_queue s of
        [] \<Rightarrow> None
      | x # xs \<Rightarrow> let s' = s\<lparr>m_queue := xs\<rparr> in Some (x, notify_after_pop s', s'))"

definition try_get :: "'a \<Rightarrow> 'a thqueue \<Rightarrow> bool \<times> 'a \<times> cond list \<times> 'a thqueue" where
  "try_get slot s =
     (case m_queue s of
        [] \<Rightarrow> (False, slot, [], s)
      | x # xs \<Rightarrow> let s' = s\<lparr>m_queue := xs\<rparr> in (True, x, notify_after_pop s', s'))"

subsection \<open>The parameter object of \<^verbatim>\<open>try_put\<close>\<close>

text \<open>
  The queue is a template over the element type \<^verbatim>\<open>T\<close> and moves values with
  \<^verbatim>\<open>T\<close>'s move constructor, which is not part of the class. It is a parameter of the
  model: \<open>moved_from v\<close> is what a \<^verbatim>\<open>T\<close> object holding \<open>v\<close> holds after it has
  been moved from; the object constructed from it holds \<open>v\<close>. For \<^verbatim>\<open>int\<close> a move is a
  copy and the source keeps its value. For \<^verbatim>\<open>std::string\<close>, the element type of
  main.cpp, the language standard leaves the source in a valid but unspecified state;
  the move constructors of libstdc++, libc++ and the MSVC library hand the characters
  over and set the source to the empty string, which is what \<open>string_moved_from\<close>
  records.
\<close>

definition int_moved_from :: "int \<Rightarrow> int" where
  "int_moved_from v = v"

definition string_moved_from :: "string \<Rightarrow> string" where
  "string_moved_from v = []"

text \<open>
  The body of \<^verbatim>\<open>try_put(value_type val)\<close> with the parameter object \<^verbatim>\<open>val\<close> followed:
  the second component of the result is what \<^verbatim>\<open>val\<close> holds when the body returns. The
  rejecting branch returns before \<^verbatim>\<open>val\<close> is touched; the accepting branch runs
  \<^verbatim>\<open>m_queue.emplace(std::move(val))\<close>, which constructs the new element from \<^verbatim>\<open>val\<close>
  and leaves \<^verbatim>\<open>val\<close> moved-from.
\<close>

definition try_put_body ::
  "('a \<Rightarrow> 'a) \<Rightarrow> 'a \<Rightarrow> 'a thqueue \<Rightarrow> bool \<times> 'a \<times> cond list \<times> 'a thqueue" where
  "try_put_body moved_from val s =
     (let n = size_thq s
      in if n \<ge> m_capacity s then (False, val, [], s)
         else let s' = s\<lparr>m_queue := m_queue s @ [val]\<rparr>
              in (True, moved_from val, if n = 0 then [NotEmptyCond] else [], s'))"

text \<open>
  \<^verbatim>\<open>val\<close> is taken by value, so it is an object of its own, initialised from the
  caller's object \<^verbatim>\<open>x\<close> before the body runs: by \<^verbatim>\<open>T\<close>'s copy constructor in
  \<^verbatim>\<open>q.try_put(x)\<close>, by its move constructor in \<^verbatim>\<open>q.try_put(std::move(x))\<close>.
  \<open>init_param\<close> gives the content of \<^verbatim>\<open>val\<close> and of \<^verbatim>\<open>x\<close> after the initialisation.
\<close>

datatype argument = Copy_of | Move_of

definition init_param :: "('a \<Rightarrow> 'a) \<Rightarrow> argument \<Rightarrow> 'a \<Rightarrow> 'a \<times> 'a" where
  "init_param moved_from a x = (case a of Copy_of \<Rightarrow> (x, x) | Move_of \<Rightarrow> (x, moved_from x))"

text \<open>
  The whole call expression: the parameter is initialised, the body runs on it, and
  the parameter is destroyed when the call returns. The function returns a \<^verbatim>\<open>bool\<close>
  only, so the caller is left with its own object \<^verbatim>\<open>x\<close>, the first component.
\<close>

definition try_put_call ::
  "('a \<Rightarrow> 'a) \<Rightarrow> argument \<Rightarrow> 'a \<Rightarrow> 'a thqueue \<Rightarrow> 'a \<times> bool \<times> cond list \<times> 'a thqueue" where
  "try_put_call moved_from a x s =
     (case init_param moved_from a x of
        (val, x') \<Rightarrow>
          (case try_put_body moved_from val s of (b, val', evs, s') \<Rightarrow> (x', b, evs, s')))"

subsection \<open>Sequences of calls\<close>

text \<open>
  Since every member function runs under the mutex, an execution by any number of
  threads is a sequence of calls, each applied to the state the previous one left. A
  blocking call that finds its predicate false is \<open>Suspended\<close> and leaves the state
  as it is; when it completes later, it does so as a call of the same kind at that
  later place of the sequence.
\<close>

datatype 'a call =
    Call_empty
  | Call_capacity
  | Call_set_capacity size_type
  | Call_size
  | Call_put 'a
  | Call_try_put 'a
  | Call_get_ptr 'a
  | Call_get
  | Call_try_get 'a

datatype 'a reply =
    Ret_void
  | Ret_bool bool
  | Ret_size size_type
  | Ret_value 'a
  | Ret_slot 'a
  | Ret_bool_slot bool 'a
  | Suspended

fun do_call :: "'a call \<Rightarrow> 'a thqueue \<Rightarrow> 'a reply \<times> cond list \<times> 'a thqueue" where
  "do_call Call_empty s = (Ret_bool (empty_thq s), [], s)"
| "do_call Call_capacity s = (Ret_size (capacity s), [], s)"
| "do_call (Call_set_capacity cap) s = (Ret_void, capacity_set cap s)"
| "do_call Call_size s = (Ret_size (size_thq s), [], s)"
| "do_call (Call_put v) s =
     (case put v s of None \<Rightarrow> (Suspended, [], s) | Some r \<Rightarrow> (Ret_void, r))"
| "do_call (Call_try_put v) s = (case try_put v s of (b, r) \<Rightarrow> (Ret_bool b, r))"
| "do_call (Call_get_ptr slot) s =
     (case get_ptr slot s of None \<Rightarrow> (Suspended, [], s) | Some (x, r) \<Rightarrow> (Ret_slot x, r))"
| "do_call Call_get s =
     (case get s of None \<Rightarrow> (Suspended, [], s) | Some (x, r) \<Rightarrow> (Ret_value x, r))"
| "do_call (Call_try_get slot) s = (case try_get slot s of (b, x, r) \<Rightarrow> (Ret_bool_slot b x, r))"

fun run :: "'a call list \<Rightarrow> 'a thqueue \<Rightarrow> 'a reply list \<times> 'a thqueue" where
  "run [] s = ([], s)"
| "run (c # cs) s =
     (case do_call c s of (r, evs, s') \<Rightarrow> (case run cs s' of (rs, s'') \<Rightarrow> (r # rs, s'')))"

text \<open>The calls of a sequence that are not the capacity setter.\<close>

fun is_set_capacity :: "'a call \<Rightarrow> bool" where
  "is_set_capacity (Call_set_capacity cap) = True"
| "is_set_capacity c = False"

text \<open>The calls that remove an item: both forms of \<^verbatim>\<open>get\<close>, and \<^verbatim>\<open>try_get\<close>.\<close>

fun is_removal :: "'a call \<Rightarrow> bool" where
  "is_removal (Call_get_ptr slot) = True"
| "is_removal Call_get = True"
| "is_removal (Call_try_get slot) = True"
| "is_removal c = False"

text \<open>
  A sequence of calls in which the capacity setter is never given a value below the
  size the queue has at that call.
\<close>

fun never_below_size :: "'a call list \<Rightarrow> 'a thqueue \<Rightarrow> bool" where
  "never_below_size [] s = True"
| "never_below_size (c # cs) s =
     ((case c of Call_set_capacity cap \<Rightarrow> size_thq s \<le> cap | _ \<Rightarrow> True)
      \<and> never_below_size cs (snd (snd (do_call c s))))"

text \<open>
  The element count does not exceed the capacity, both read as natural numbers. This
  is the invariant the insertions keep.
\<close>

definition size_bounded :: "'a thqueue \<Rightarrow> bool" where
  "size_bounded s = (length (m_queue s) \<le> unat (m_capacity s))"

section \<open>Auxiliary facts\<close>

lemma run_Cons_state: "snd (run (c # cs) s) = snd (run cs (snd (snd (do_call c s))))"
  by (simp split: prod.splits)

lemma word_ge_1_iff: "(1 \<le> (w :: size_type)) = (w \<noteq> 0)"
  by (auto simp: word_le_nat_alt unat_eq_0 Suc_leI unat_gt_0)

section \<open>Construction and the capacity setter\<close>

text \<open>
  C5: for every requested capacity \<open>c\<close>, zero included, the constructor
  \<^verbatim>\<open>thqueue(size_t cap)\<close> yields an empty queue whose capacity is \<open>c\<close> when \<open>c\<close> is
  at least 1 and 1 when \<open>c\<close> is zero, which is the maximum of \<open>c\<close> and 1 read as
  unsigned numbers. The constructor is a total function: it has no failing branch.
\<close>

theorem thqueue_cap_clamps:
  "capacity (thqueue_cap c) = (if c = 0 then 1 else c)
   \<and> unat (capacity (thqueue_cap c :: 'a thqueue)) = max (unat c) 1
   \<and> capacity (thqueue_cap 0 :: 'a thqueue) = 1
   \<and> m_queue (thqueue_cap c :: 'a thqueue) = []"
proof -
  have le: "1 \<le> c" if "c \<noteq> 0"
    using that by (simp add: word_le_nat_alt unat_eq_0 Suc_leI unat_gt_0)
  have a: "max c 1 = (if c = 0 then 1 else c)"
    using le by (auto simp: max_def)
  have b: "unat (max c 1) = max (unat c) 1"
    by (cases "c = 0") (use le in \<open>auto simp: max_def word_le_nat_alt\<close>)
  show ?thesis
    using a b by (simp add: capacity_def thqueue_cap_def)
qed

text \<open>
  C6: for every state and every value \<open>n\<close>, the setter \<^verbatim>\<open>capacity(n)\<close> stores exactly
  \<open>n\<close> in the capacity field, leaves the items (and so the size) as they were, and
  calls \<^verbatim>\<open>notify_one\<close> on neither condition variable.
\<close>

theorem capacity_set_frame:
  "capacity (snd (capacity_set n s)) = n
   \<and> m_queue (snd (capacity_set n s)) = m_queue s
   \<and> size_thq (snd (capacity_set n s)) = size_thq s
   \<and> fst (capacity_set n s) = []
   \<and> snd (capacity_set n s) = s\<lparr>m_capacity := n\<rparr>"
  by (simp add: capacity_set_def capacity_def size_thq_def)

text \<open>
  C10: once \<^verbatim>\<open>capacity(0)\<close> has been called, \<^verbatim>\<open>try_put(v)\<close> returns false for every
  value and every content of the queue, the empty one included, and changes nothing.
\<close>

theorem try_put_after_capacity_zero:
  "try_put v (snd (capacity_set 0 s)) = (False, [], snd (capacity_set 0 s))
   \<and> try_put v (snd (capacity_set 0 (s\<lparr>m_queue := []\<rparr>)))
       = (False, [], snd (capacity_set 0 (s\<lparr>m_queue := []\<rparr>)))"
  by (simp add: try_put_def capacity_set_def)

section \<open>The non-blocking operations on a full or an empty queue\<close>

text \<open>
  C4: on an empty queue, \<^verbatim>\<open>try_get(slot)\<close> returns false, leaves the queue and the
  caller's slot as they were, notifies nobody, and the size is 0 afterwards.
\<close>

theorem try_get_empty:
  assumes "empty_thq s"
  shows "try_get slot s = (False, slot, [], s)
       \<and> size_thq (snd (snd (snd (try_get slot s)))) = 0"
  using assms by (simp add: try_get_def empty_thq_def size_thq_def)

theorem try_get_empty_witness:
  "empty_thq (thqueue_cap 2 :: string thqueue)
   \<and> try_get ''old'' (thqueue_cap 2) = (False, ''old'', [], thqueue_cap 2)
   \<and> size_thq (snd (snd (snd (try_get ''old'' (thqueue_cap 2 :: string thqueue))))) = 0"
proof -
  have e: "empty_thq (thqueue_cap 2 :: string thqueue)"
    by (simp add: empty_thq_def thqueue_cap_def)
  show ?thesis
    using e try_get_empty [OF e, of "''old''"] by blast
qed

section \<open>The two forms of the blocking removal\<close>

text \<open>
  C9: on a non-empty queue, \<^verbatim>\<open>get(value_type*)\<close> and \<^verbatim>\<open>get()\<close> remove the same head
  item, leave the same queue, and make the same notification of \<^verbatim>\<open>m_notFullCond\<close>; the
  first writes the item to the caller's slot, whatever it held, and the second returns it.
\<close>

theorem get_forms_agree:
  assumes "\<not> empty_thq s"
  shows "get_ptr slot s = Some (hd (m_queue s), notify_after_pop (s\<lparr>m_queue := tl (m_queue s)\<rparr>),
                                s\<lparr>m_queue := tl (m_queue s)\<rparr>)
       \<and> get s = Some (hd (m_queue s), notify_after_pop (s\<lparr>m_queue := tl (m_queue s)\<rparr>),
                       s\<lparr>m_queue := tl (m_queue s)\<rparr>)
       \<and> get_ptr slot s = get s"
  using assms by (simp add: get_ptr_def get_def empty_thq_def Let_def split: list.splits)

theorem get_forms_agree_witness:
  "\<not> empty_thq \<lparr>m_capacity = 2, m_queue = [''a'', ''b'']\<rparr>
   \<and> get_ptr ''old'' \<lparr>m_capacity = 2, m_queue = [''a'', ''b'']\<rparr>
       = Some (''a'', [NotFullCond], \<lparr>m_capacity = 2, m_queue = [''b'']\<rparr>)
   \<and> get \<lparr>m_capacity = 2, m_queue = [''a'', ''b'']\<rparr>
       = Some (''a'', [NotFullCond], \<lparr>m_capacity = 2, m_queue = [''b'']\<rparr>)"
proof -
  have n: "\<not> empty_thq \<lparr>m_capacity = 2, m_queue = [''a'', ''b'']\<rparr>"
    by (simp add: empty_thq_def)
  show ?thesis
    using n get_forms_agree [OF n, of "''old''"]
    by (simp add: notify_after_pop_def size_thq_def)
qed

section \<open>The call trace of the second scenario\<close>

text \<open>
  C2: on a queue constructed with capacity 2, the calls \<^verbatim>\<open>put("a")\<close>, \<^verbatim>\<open>put("b")\<close>,
  \<^verbatim>\<open>try_put("c")\<close>, \<^verbatim>\<open>get()\<close>, \<^verbatim>\<open>try_put("c")\<close>, \<^verbatim>\<open>get()\<close>, \<^verbatim>\<open>get()\<close> made one
  after the other return, in this order: nothing, nothing, false, "a", true, "b", "c".
  No call is suspended, and the queue is empty at the end.
\<close>

theorem scenario_capacity_two:
  "run [Call_put ''a'', Call_put ''b'', Call_try_put ''c'', Call_get, Call_try_put ''c'',
        Call_get, Call_get] (thqueue_cap 2)
   = ([Ret_void, Ret_void, Ret_bool False, Ret_value ''a'', Ret_bool True, Ret_value ''b'',
       Ret_value ''c''], \<lparr>m_capacity = 2, m_queue = []\<rparr>)
   \<and> Suspended \<notin> set (fst (run [Call_put ''a'', Call_put ''b'', Call_try_put ''c'', Call_get,
        Call_try_put ''c'', Call_get, Call_get] (thqueue_cap 2)))"
  by (simp add: thqueue_cap_def put_def try_put_def get_def size_thq_def notify_after_pop_def
      word_le_nat_alt)

section \<open>A rejected \<^verbatim>\<open>try_put\<close>\<close>

text \<open>Without the parameter object, the body is \<open>try_put\<close>.\<close>

lemma try_put_body_try_put:
  "try_put_body moved_from v s = (b, val', evs, s') \<Longrightarrow> try_put v s = (b, evs, s')"
  by (auto simp: try_put_body_def try_put_def Let_def split: if_splits)

text \<open>
  C3, as the specification states it: when the size is at least the capacity,
  \<^verbatim>\<open>try_put(v)\<close> returns false and the caller still holds \<open>v\<close>. The statement fails
  on a queue of \<^verbatim>\<open>std::string\<close> of capacity 1 that holds "a", for a caller whose
  string \<^verbatim>\<open>x\<close> holds "b" and who calls \<^verbatim>\<open>q.try_put(std::move(x))\<close>: the call returns
  false, the queue still holds "a" alone, the parameter that held "b" is destroyed, and
  \<^verbatim>\<open>x\<close> is empty. The value is neither in the queue nor with the caller.
\<close>

theorem try_put_full_moved_counterexample:
  "m_capacity \<lparr>m_capacity = 1, m_queue = [''a'']\<rparr> \<le> size_thq \<lparr>m_capacity = 1, m_queue = [''a'']\<rparr>
   \<and> try_put_call string_moved_from Move_of ''b'' \<lparr>m_capacity = 1, m_queue = [''a'']\<rparr>
       = ([], False, [], \<lparr>m_capacity = 1, m_queue = [''a'']\<rparr>)
   \<and> fst (try_put_call string_moved_from Move_of ''b'' \<lparr>m_capacity = 1, m_queue = [''a'']\<rparr>) \<noteq> ''b''
   \<and> ''b'' \<notin> set (m_queue (snd (snd (snd
         (try_put_call string_moved_from Move_of ''b'' \<lparr>m_capacity = 1, m_queue = [''a'']\<rparr>)))))"
  by (simp add: try_put_call_def try_put_body_def init_param_def string_moved_from_def
      size_thq_def)

text \<open>
  C3, amended: when the size is at least the capacity, \<^verbatim>\<open>try_put(v)\<close> returns false,
  leaves the queue as it was and notifies nobody, and the value is not moved into the
  queue: the parameter object still holds it when the body returns. The parameter is
  taken by value and only a \<^verbatim>\<open>bool\<close> comes back, so what the caller's own object holds
  after the call is decided when the argument is passed and is the same whether the
  call is accepted or rejected: the value after \<^verbatim>\<open>try_put(x)\<close>, the moved-from state of
  the element type after \<^verbatim>\<open>try_put(std::move(x))\<close>. The caller thus still holds the
  value exactly when it passed a copy or the element type's move leaves the source as
  it was.
\<close>

theorem try_put_full:
  "(m_capacity s \<le> size_thq s \<longrightarrow>
      try_put v s = (False, [], s)
      \<and> try_put_body moved_from v s = (False, v, [], s)
      \<and> try_put_call moved_from a v s
          = (case a of Copy_of \<Rightarrow> v | Move_of \<Rightarrow> moved_from v, False, [], s))
   \<and> fst (try_put_call moved_from a v s) = (case a of Copy_of \<Rightarrow> v | Move_of \<Rightarrow> moved_from v)
   \<and> (fst (try_put_call moved_from a v s) = v) = (a = Copy_of \<or> moved_from v = v)"
  by (cases a)
    (auto simp: try_put_def try_put_body_def try_put_call_def init_param_def Let_def
      split: prod.splits)

theorem try_put_full_witness:
  "m_capacity \<lparr>m_capacity = 1, m_queue = [''a'']\<rparr> \<le> size_thq \<lparr>m_capacity = 1, m_queue = [''a'']\<rparr>
   \<and> try_put ''b'' \<lparr>m_capacity = 1, m_queue = [''a'']\<rparr>
       = (False, [], \<lparr>m_capacity = 1, m_queue = [''a'']\<rparr>)
   \<and> try_put_body string_moved_from ''b'' \<lparr>m_capacity = 1, m_queue = [''a'']\<rparr>
       = (False, ''b'', [], \<lparr>m_capacity = 1, m_queue = [''a'']\<rparr>)
   \<and> try_put_call string_moved_from Move_of ''b'' \<lparr>m_capacity = 1, m_queue = [''a'']\<rparr>
       = ([], False, [], \<lparr>m_capacity = 1, m_queue = [''a'']\<rparr>)
   \<and> try_put_call int_moved_from Move_of 5 \<lparr>m_capacity = 1, m_queue = [4]\<rparr>
       = (5, False, [], \<lparr>m_capacity = 1, m_queue = [4]\<rparr>)"
proof -
  have f: "m_capacity \<lparr>m_capacity = 1, m_queue = [''a'']\<rparr>
           \<le> size_thq \<lparr>m_capacity = 1, m_queue = [''a'']\<rparr>"
    by (simp add: size_thq_def)
  have g: "m_capacity \<lparr>m_capacity = 1, m_queue = [4::int]\<rparr>
           \<le> size_thq \<lparr>m_capacity = 1, m_queue = [4::int]\<rparr>"
    by (simp add: size_thq_def)
  show ?thesis
    using f
      try_put_full [of "\<lparr>m_capacity = 1, m_queue = [''a'']\<rparr>" "''b''" string_moved_from Move_of]
      g try_put_full [of "\<lparr>m_capacity = 1, m_queue = [4::int]\<rparr>" 5 int_moved_from Move_of]
    by (simp add: string_moved_from_def int_moved_from_def)
qed

section \<open>Size and capacity along a sequence of calls\<close>

lemma size_bounded_unat: "size_bounded s \<Longrightarrow> unat (size_thq s) = length (m_queue s)"
  unfolding size_bounded_def size_thq_def
  by (metis le_unat_uoi)

lemma size_bounded_le: "size_bounded s \<Longrightarrow> size_thq s \<le> capacity s"
  using size_bounded_unat [of s] by (simp add: word_le_nat_alt capacity_def size_bounded_def)

lemma size_bounded_call:
  assumes "size_bounded s" "case c of Call_set_capacity cap \<Rightarrow> size_thq s \<le> cap | _ \<Rightarrow> True"
  shows "size_bounded (snd (snd (do_call c s)))"
proof (cases c)
  case (Call_set_capacity cap)
  with assms size_bounded_unat[OF assms(1)] show ?thesis
    by (simp add: capacity_set_def size_bounded_def word_le_nat_alt)
next
  case (Call_put v)
  with assms size_bounded_unat[OF assms(1)] show ?thesis
    by (auto simp: put_def size_bounded_def word_le_nat_alt Let_def not_le)
next
  case (Call_try_put v)
  with assms size_bounded_unat[OF assms(1)] show ?thesis
    by (auto simp: try_put_def size_bounded_def word_le_nat_alt Let_def not_le)
next
  case (Call_get_ptr x)
  with assms show ?thesis
    by (auto simp: get_ptr_def size_bounded_def Let_def split: list.splits)
next
  case Call_get
  with assms show ?thesis
    by (auto simp: get_def size_bounded_def Let_def split: list.splits)
next
  case (Call_try_get x)
  with assms show ?thesis
    by (auto simp: try_get_def size_bounded_def Let_def split: list.splits)
qed (use assms in simp_all)

lemma size_bounded_run:
  "size_bounded s \<Longrightarrow> never_below_size cs s \<Longrightarrow> size_bounded (snd (run cs s))"
proof (induction cs arbitrary: s)
  case Nil
  then show ?case by simp
next
  case (Cons c cs)
  from Cons.prems have "size_bounded (snd (snd (do_call c s)))"
    by (intro size_bounded_call) simp_all
  moreover from Cons.prems have "never_below_size cs (snd (snd (do_call c s)))" by simp
  ultimately have "size_bounded (snd (run cs (snd (snd (do_call c s)))))" by (rule Cons.IH)
  then show ?case by (simp only: run_Cons_state)
qed

text \<open>
  C1, as the specification states it: in every state reached from a constructor by
  the public operations, the capacity setter included, the size is at most the capacity.
  The statement fails after three insertions into a queue of capacity 3 followed by
  \<^verbatim>\<open>capacity(1)\<close>: the size is 3 and the capacity 1.
\<close>

theorem size_exceeds_lowered_capacity_counterexample:
  "\<not> size_thq (snd (run [Call_put ''a'', Call_put ''b'', Call_put ''c'', Call_set_capacity 1]
          (thqueue_cap 3)))
     \<le> capacity (snd (run [Call_put ''a'', Call_put ''b'', Call_put ''c'', Call_set_capacity 1]
          (thqueue_cap 3)))"
  by (simp add: thqueue_cap_def put_def capacity_set_def size_thq_def capacity_def
      word_le_nat_alt)

text \<open>
  C1, amended: in every state reached from either constructor by a sequence of the
  public operations in which the capacity setter is never given a value below the size
  the queue has at that call, the size is at least 0 and at most the capacity, and it
  is the number of items held.
\<close>

theorem size_within_capacity:
  assumes "s0 = thqueue_default \<or> s0 = thqueue_cap c"
    and "never_below_size cs s0"
  shows "0 \<le> size_thq (snd (run cs s0))
       \<and> size_thq (snd (run cs s0)) \<le> capacity (snd (run cs s0))
       \<and> unat (size_thq (snd (run cs s0))) = length (m_queue (snd (run cs s0)))"
proof -
  have "size_bounded s0"
    using assms(1) by (auto simp: size_bounded_def thqueue_default_def thqueue_cap_def)
  then have "size_bounded (snd (run cs s0))"
    using assms(2) by (rule size_bounded_run)
  then show ?thesis
    by (simp add: size_bounded_le size_bounded_unat)
qed

theorem size_within_capacity_witness:
  "never_below_size [Call_put ''a'', Call_put ''b'', Call_set_capacity 2, Call_try_put ''c'', Call_get]
     (thqueue_cap 3)
   \<and> size_thq (snd (run [Call_put ''a'', Call_put ''b'', Call_set_capacity 2, Call_try_put ''c'', Call_get]
        (thqueue_cap 3)))
     \<le> capacity (snd (run [Call_put ''a'', Call_put ''b'', Call_set_capacity 2, Call_try_put ''c'', Call_get]
        (thqueue_cap 3)))"
proof -
  have n: "never_below_size [Call_put ''a'', Call_put ''b'', Call_set_capacity 2, Call_try_put ''c'', Call_get]
     (thqueue_cap 3 :: string thqueue)"
    by (simp add: thqueue_cap_def put_def try_put_def get_def capacity_set_def size_thq_def
        word_le_nat_alt)
  show ?thesis
    using n size_within_capacity [OF disjI2 [OF refl] n] by blast
qed

text \<open>
  C7: the capacity is at least 1 in every state between operations. The constructor
  clamps its argument to at least 1, but the setter stores any value: after
  \<^verbatim>\<open>capacity(0)\<close> on a queue constructed with capacity 1 the capacity is 0, and the
  \<^verbatim>\<open>m_capacity-1\<close> of the removals then wraps to \<^verbatim>\<open>MAX_CAPACITY\<close>.
\<close>

theorem capacity_zero_after_setter:
  "capacity (snd (run [Call_set_capacity 0] (thqueue_cap 1 :: string thqueue))) = 0
   \<and> \<not> 1 \<le> capacity (snd (run [Call_set_capacity 0] (thqueue_cap 1 :: string thqueue)))
   \<and> m_capacity (snd (run [Call_set_capacity 0] (thqueue_cap 1 :: string thqueue))) - 1
       = MAX_CAPACITY"
  by (simp add: thqueue_cap_def capacity_set_def capacity_def MAX_CAPACITY_def)

section \<open>Lowering the capacity below the size\<close>

lemma full_call_unchanged:
  assumes "m_capacity t = 1" "size_thq t \<noteq> 0" "\<not> is_removal c" "\<not> is_set_capacity c"
  shows "snd (snd (do_call c t)) = t"
  using assms by (cases c) (simp_all add: put_def try_put_def word_ge_1_iff)

lemma removal_call_state:
  assumes "is_removal c" "size_thq t \<noteq> 0"
  shows "m_capacity (snd (snd (do_call c t))) = m_capacity t
       \<and> size_thq (snd (snd (do_call c t))) = size_thq t - 1"
proof -
  from assms(2) obtain x xs where q: "m_queue t = x # xs"
    by (cases "m_queue t") (simp_all add: size_thq_def)
  with assms(1) show ?thesis
    by (cases c) (simp_all add: get_ptr_def get_def try_get_def size_thq_def Let_def)
qed

text \<open>
  With capacity 1 and no call of the setter, the queue stays non-empty, and so full,
  as long as fewer removals have been made than the size it started with.
\<close>

lemma capacity_one_stays_full:
  assumes "m_capacity t = 1"
    and "length (filter is_removal cs) < unat (size_thq t)"
    and "list_all (\<lambda>c. \<not> is_set_capacity c) cs"
  shows "m_capacity (snd (run cs t)) = 1 \<and> size_thq (snd (run cs t)) \<noteq> 0"
  using assms
proof (induction cs arbitrary: t)
  case Nil
  then show ?case by (auto simp: unat_gt_0)
next
  case (Cons c cs)
  from Cons.prems(2) have nz: "size_thq t \<noteq> 0"
    by (auto simp: unat_gt_0)
  let ?t = "snd (snd (do_call c t))"
  have "m_capacity ?t = 1 \<and> length (filter is_removal cs) < unat (size_thq ?t)"
  proof (cases "is_removal c")
    case True
    from removal_call_state [OF True nz] Cons.prems(1)
    have "m_capacity ?t = 1" and sz: "size_thq ?t = size_thq t - 1" by simp_all
    moreover have "unat (size_thq t - 1) = unat (size_thq t) - 1"
      using nz by (simp add: unat_minus_one)
    ultimately show ?thesis
      using Cons.prems(2) True by simp
  next
    case False
    with Cons.prems nz have "?t = t"
      by (intro full_call_unchanged) simp_all
    with Cons.prems False show ?thesis by simp
  qed
  moreover from Cons.prems(3) have "list_all (\<lambda>c. \<not> is_set_capacity c) cs" by simp
  ultimately have "m_capacity (snd (run cs ?t)) = 1 \<and> size_thq (snd (run cs ?t)) \<noteq> 0"
    by (intro Cons.IH) simp_all
  then show ?case by (simp add: run_Cons_state del: run.simps)
qed

text \<open>
  C8: starting from a queue of size 3, \<^verbatim>\<open>capacity(1)\<close> removes no item and the size
  is still 3. After any further sequence of calls that leaves the capacity alone and
  contains fewer than two removal calls, \<^verbatim>\<open>try_put\<close> returns false.
\<close>

theorem lowering_capacity_keeps_items:
  assumes "size_thq s = 3"
    and "list_all (\<lambda>c. \<not> is_set_capacity c) cs"
    and "length (filter is_removal cs) < 2"
  shows "m_queue (snd (capacity_set 1 s)) = m_queue s
       \<and> size_thq (snd (capacity_set 1 s)) = 3
       \<and> fst (try_put v (snd (run cs (snd (capacity_set 1 s))))) = False"
proof -
  let ?s1 = "snd (capacity_set 1 s)"
  have c: "m_capacity ?s1 = 1" and z: "size_thq ?s1 = 3" and q: "m_queue ?s1 = m_queue s"
    using assms(1) by (simp_all add: capacity_set_def size_thq_def)
  have "length (filter is_removal cs) < unat (size_thq ?s1)"
    using assms(3) z by simp
  from capacity_one_stays_full [OF c this assms(2)]
  have "fst (try_put v (snd (run cs ?s1))) = False"
    by (simp add: try_put_def word_ge_1_iff)
  with z q show ?thesis by simp
qed

theorem lowering_capacity_keeps_items_witness:
  "size_thq \<lparr>m_capacity = 5, m_queue = [''a'', ''b'', ''c'']\<rparr> = 3
   \<and> list_all (\<lambda>c. \<not> is_set_capacity c) [Call_try_put ''d'', Call_get, Call_put ''e'']
   \<and> length (filter is_removal [Call_try_put ''d'', Call_get, Call_put ''e'']) < 2
   \<and> size_thq (snd (capacity_set 1 \<lparr>m_capacity = 5, m_queue = [''a'', ''b'', ''c'']\<rparr>)) = 3
   \<and> fst (try_put ''f'' (snd (run [Call_try_put ''d'', Call_get, Call_put ''e'']
        (snd (capacity_set 1 \<lparr>m_capacity = 5, m_queue = [''a'', ''b'', ''c'']\<rparr>))))) = False"
proof -
  have a: "size_thq \<lparr>m_capacity = 5, m_queue = [''a'', ''b'', ''c'']\<rparr> = 3"
    by (simp add: size_thq_def)
  have b: "list_all (\<lambda>c. \<not> is_set_capacity c) [Call_try_put ''d'', Call_get, Call_put ''e'']"
    by simp
  have c: "length (filter is_removal [Call_try_put ''d'', Call_get, Call_put ''e'']) < 2"
    by simp
  show ?thesis
    using a b c lowering_capacity_keeps_items [OF a b c, of "''f''"] by blast
qed

end
